theory Spec2Isabelle
  imports Complex_Main "HOL-Library.Sublist"
begin

section \<open>Python strings\<close>

text \<open>
  A Python \<open>str\<close> is modelled as a \<open>string\<close> (a list of characters). The operations
  below are the three string operations that \<open>utils.py\<close> applies to the text of an
  exception: \<open>str.lower()\<close>, \<open>str.replace("_", " ")\<close> and the substring test \<open>in\<close>.
  Characters are bytes: \<open>lower\<close> maps the ASCII letters \<open>A\<close> .. \<open>Z\<close> to \<open>a\<close> .. \<open>z\<close>
  and leaves every other character as it is, which is \<open>str.lower()\<close> on ASCII text.
\<close>

definition lower_char :: "char \<Rightarrow> char" where
  "lower_char c =
     (let n = (of_char c :: nat)
      in if 65 \<le> n \<and> n \<le> 90 then char_of (n + 32) else c)"

definition lower :: "string \<Rightarrow> string" where
  "lower s = map lower_char s"

definition replace_char :: "char \<Rightarrow> char \<Rightarrow> string \<Rightarrow> string" where
  "replace_char old new s = map (\<lambda>c. if c = old then new else c) s"

text \<open>\<open>contains sub s\<close> is Python's \<open>sub in s\<close>: \<open>sub\<close> starts at some position of \<open>s\<close>.\<close>

fun contains :: "string \<Rightarrow> string \<Rightarrow> bool" where
  "contains sub [] = (sub = [])"
| "contains sub (c # cs) = (prefix sub (c # cs) \<or> contains sub cs)"

text \<open>Decimal text of an integer, as \<open>str(n)\<close> and an f-string's \<open>{n}\<close> give it.\<close>

definition digit_char :: "nat \<Rightarrow> char" where
  "digit_char d = char_of (48 + d)"

fun str_nat :: "nat \<Rightarrow> string" where
  "str_nat n = (if n < 10 then [digit_char n] else str_nat (n div 10) @ [digit_char (n mod 10)])"

declare str_nat.simps [simp del]

definition str_int :: "int \<Rightarrow> string" where
  "str_int i = (if i < 0 then CHR ''-'' # str_nat (nat (- i)) else str_nat (nat i))"

section \<open>Python floats\<close>

text \<open>
  \<open>initial_sleep_time\<close>, \<open>backoff_factor\<close> and \<open>sleep_time\<close> are Python floats: IEEE 754
  double precision numbers. A finite float is kept as an integer mantissa and a binary
  exponent, \<open>Finite m e\<close> standing for \<open>m * 2 ^ e\<close>; the other values are the two
  infinities and NaN. The two zeros are not told apart: no product or check below
  depends on the sign of a zero. \<open>real_of\<close> is the real number a finite float stands for
  (and is only used on finite floats).
\<close>

datatype pyfloat = Finite int int | PosInf | NegInf | NaN

fun is_finite :: "pyfloat \<Rightarrow> bool" where
  "is_finite (Finite m e) = True"
| "is_finite PosInf = False"
| "is_finite NegInf = False"
| "is_finite NaN = False"

fun real_of :: "pyfloat \<Rightarrow> real" where
  "real_of (Finite m e) =
     (if 0 \<le> e then of_int m * 2 ^ nat e else of_int m / 2 ^ nat (- e))"
| "real_of PosInf = 0"
| "real_of NegInf = 0"
| "real_of NaN = 0"

text \<open>
  The product of two floats is the exact product rounded to the nearest double, ties
  to the even mantissa: 53 bits of mantissa, no bit below \<open>2 ^ - 1074\<close>, and an
  infinity when the rounded magnitude reaches \<open>2 ^ 1024\<close>. \<open>bitlen a\<close> is the number of
  binary digits of \<open>a\<close>; \<open>round_half_even a s\<close> drops the \<open>s\<close> lowest bits of \<open>a\<close>.
\<close>

fun bitlen :: "nat \<Rightarrow> nat" where
  "bitlen n = (if n = 0 then 0 else Suc (bitlen (n div 2)))"

declare bitlen.simps [simp del]

definition round_half_even :: "nat \<Rightarrow> nat \<Rightarrow> nat" where
  "round_half_even a s =
     (let q = a div 2 ^ s; r = a mod 2 ^ s; h = 2 ^ (s - 1)
      in if h < r \<or> (r = h \<and> odd q) then q + 1 else q)"

definition round_double :: "int \<Rightarrow> int \<Rightarrow> pyfloat" where
  "round_double m e =
     (let a = nat \<bar>m\<bar>;
          u = max (int (bitlen a) - 1 + e - 52) (- 1074);
          q = (if u \<le> e then a else round_half_even a (nat (u - e)));
          x = (if u \<le> e then e else u)
      in if 1024 < int (bitlen q) + x then (if m < 0 then NegInf else PosInf)
         else Finite (if m < 0 then - int q else int q) x)"

fun float_mul :: "pyfloat \<Rightarrow> pyfloat \<Rightarrow> pyfloat" where
  "float_mul NaN b = NaN"
| "float_mul a NaN = NaN"
| "float_mul (Finite m e) (Finite n d) = round_double (m * n) (e + d)"
| "float_mul (Finite m e) PosInf = (if m = 0 then NaN else if m < 0 then NegInf else PosInf)"
| "float_mul (Finite m e) NegInf = (if m = 0 then NaN else if m < 0 then PosInf else NegInf)"
| "float_mul PosInf (Finite n d) = (if n = 0 then NaN else if n < 0 then NegInf else PosInf)"
| "float_mul NegInf (Finite n d) = (if n = 0 then NaN else if n < 0 then PosInf else NegInf)"
| "float_mul PosInf PosInf = PosInf"
| "float_mul PosInf NegInf = NegInf"
| "float_mul NegInf PosInf = NegInf"
| "float_mul NegInf NegInf = PosInf"

section \<open>Exceptions, operations and effects\<close>

text \<open>
  An exception is a value with the name of its class, whether it is an instance of
  \<open>Exception\<close> (what the handler \<open>except Exception as e\<close> of line 58 catches;
  \<open>KeyboardInterrupt\<close> and \<open>SystemExit\<close> are not), and the text that \<open>str(e)\<close> returns.
\<close>

datatype pyexc = PyExc (exc_class: string) (is_Exception: bool) (exc_str: string)

text \<open>
  The wrapped operation \<open>func\<close> is an arbitrary callable: it receives the caller's
  arguments (positional and keyword arguments together, a value of type \<open>'a\<close>), may
  read and change a state of its own (type \<open>'w\<close>), and either returns a value
  (\<open>Inr\<close>) or raises (\<open>Inl\<close>).
\<close>

type_synonym ('a, 'w, 'r) operation = "'a \<Rightarrow> 'w \<Rightarrow> (pyexc + 'r) \<times> 'w"

text \<open>
  The effects of one call of the wrapper are recorded in order: every invocation of
  \<open>func\<close> with the arguments it was given, and every \<open>time.sleep\<close> that blocked, with
  its duration.
\<close>

datatype 'a event = Call 'a | Sleep pyfloat

record ('a, 'w) state =
  world :: 'w
  trace :: "'a event list"

text \<open>
  \<open>time.sleep\<close> is the standard library's. It checks its argument before it blocks, and
  raises instead of blocking when it rejects the duration. What it raises for a
  duration, if anything, is the parameter \<open>raises\<close> of the model: \<open>raises secs = None\<close>
  when \<open>time.sleep(secs)\<close> blocks and returns. \<open>time_sleep\<close> is then the call of line 61.
\<close>

type_synonym sleep_check = "pyfloat \<Rightarrow> pyexc option"

definition time_sleep ::
  "sleep_check \<Rightarrow> pyfloat \<Rightarrow> ('a, 'w) state \<Rightarrow> pyexc + ('a, 'w) state" where
  "time_sleep raises secs \<sigma> =
     (case raises secs of
        Some err \<Rightarrow> Inl err
      | None \<Rightarrow> Inr (\<sigma>\<lparr>trace := trace \<sigma> @ [Sleep secs]\<rparr>))"

text \<open>
  The argument checks that CPython's \<open>time.sleep\<close> makes before it asks the operating
  system to sleep: NaN is refused; the duration is converted to nanoseconds (a float
  product, rounded away from zero to an integer) that must fit a signed 64-bit
  counter; a negative duration is refused. The system call can still fail for a
  duration near the top of that range (a sleep of centuries), which is why the model
  takes the behaviour of \<open>time.sleep\<close> as a parameter; this instance is used below at
  durations of a few seconds only.
\<close>

definition cpython_sleep_check :: sleep_check where
  "cpython_sleep_check secs =
     (case secs of
        NaN \<Rightarrow> Some (PyExc ''ValueError'' True ''Invalid value NaN (not a number)'')
      | _ \<Rightarrow>
        (let ns = float_mul secs (Finite 1000000000 0)
         in if \<not> is_finite ns \<or> 2 ^ 63 \<le> real_of ns \<or> real_of ns < - (2 ^ 63)
            then Some (PyExc ''OverflowError'' True ''timestamp out of range for platform time_t'')
            else if real_of ns < 0
            then Some (PyExc ''ValueError'' True ''sleep length must be non-negative'')
            else None))"

definition invoke ::
  "('a, 'w, 'r) operation \<Rightarrow> 'a \<Rightarrow> ('a, 'w) state \<Rightarrow> (pyexc + 'r) \<times> ('a, 'w) state" where
  "invoke func args \<sigma> =
     (case func args (world \<sigma>) of
        (out, w') \<Rightarrow> (out, \<sigma>\<lparr>world := w', trace := trace \<sigma> @ [Call args]\<rparr>))"

section \<open>The retrying wrapper\<close>

text \<open>The test of line 59: \<open>"rate limit" in str(e).lower().replace("_", " ")\<close>.\<close>

definition is_rate_limit :: "pyexc \<Rightarrow> bool" where
  "is_rate_limit e = contains ''rate limit'' (replace_char CHR ''_'' CHR '' '' (lower (exc_str e)))"

text \<open>
  The \<open>for _ in range(max_retries)\<close> loop, with the number of iterations still to run
  as its counter. It yields \<open>Some\<close> outcome when the body returns or raises, and
  \<open>None\<close> when the range is used up and control falls through to line 65. The body
  leaves the loop in four ways: \<open>func\<close> returns (line 57); \<open>func\<close> raises an exception
  that is not an instance of \<open>Exception\<close>, which the handler of line 58 does not catch;
  the caught exception fails the test of line 59 and is raised again (line 63); or
  \<open>time.sleep\<close> raises at line 61, inside the handler and outside the \<open>try\<close>. Line 60 is a
  float product.
\<close>

fun retry_loop ::
  "sleep_check \<Rightarrow> ('a, 'w, 'r) operation \<Rightarrow> pyfloat \<Rightarrow> 'a \<Rightarrow> nat \<Rightarrow> pyfloat \<Rightarrow> ('a, 'w) state
     \<Rightarrow> (pyexc + 'r) option \<times> ('a, 'w) state" where
  "retry_loop raises func backoff_factor args 0 sleep_time \<sigma> = (None, \<sigma>)"
| "retry_loop raises func backoff_factor args (Suc n) sleep_time \<sigma> =
     (case invoke func args \<sigma> of
        (Inr v, \<sigma>') \<Rightarrow> (Some (Inr v), \<sigma>')
      | (Inl e, \<sigma>') \<Rightarrow>
          if \<not> is_Exception e then (Some (Inl e), \<sigma>')
          else if is_rate_limit e then
            (let sleep_time' = float_mul sleep_time backoff_factor
             in case time_sleep raises sleep_time' \<sigma>' of
                  Inl err \<Rightarrow> (Some (Inl err), \<sigma>')
                | Inr \<sigma>'' \<Rightarrow> retry_loop raises func backoff_factor args n sleep_time' \<sigma>'')
          else (Some (Inl e), \<sigma>'))"

definition max_retries_exceeded :: "int \<Rightarrow> pyexc" where
  "max_retries_exceeded max_retries =
     PyExc ''Exception'' True (''Maximum retries '' @ str_int max_retries @ '' exceeded'')"

text \<open>
  \<open>range(max_retries)\<close> is empty for \<open>max_retries \<le> 0\<close> and has \<open>max_retries\<close>
  elements otherwise. The wrapper starts from the world \<open>w\<close> it is called in, with an
  empty trace, and returns its outcome with the final state.
\<close>

definition wrapper ::
  "sleep_check \<Rightarrow> ('a, 'w, 'r) operation \<Rightarrow> int \<Rightarrow> pyfloat \<Rightarrow> pyfloat \<Rightarrow> 'a \<Rightarrow> 'w
     \<Rightarrow> (pyexc + 'r) \<times> ('a, 'w) state" where
  "wrapper raises func max_retries initial_sleep_time backoff_factor args w =
     (let sleep_time = initial_sleep_time
      in case retry_loop raises func backoff_factor args (nat max_retries) sleep_time
                \<lparr>world = w, trace = []\<rparr> of
           (Some out, \<sigma>) \<Rightarrow> (out, \<sigma>)
         | (None, \<sigma>) \<Rightarrow> (Inl (max_retries_exceeded max_retries), \<sigma>))"

definition retry_with_exponential_backoff ::
  "sleep_check \<Rightarrow> ('a, 'w, 'r) operation \<Rightarrow> int \<Rightarrow> pyfloat \<Rightarrow> pyfloat \<Rightarrow> 'a \<Rightarrow> 'w
     \<Rightarrow> (pyexc + 'r) \<times> ('a, 'w) state" where
  "retry_with_exponential_backoff raises func max_retries initial_sleep_time backoff_factor =
     wrapper raises func max_retries initial_sleep_time backoff_factor"

section \<open>Describing an operation and a trace\<close>

text \<open>
  A failure is retried when the handler catches it and it passes the test of line 59.
  \<open>rate_limited func args w k\<close>: called \<open>k\<close> times in a row with \<open>args\<close>, starting in
  the world \<open>w\<close>, the operation raises each time, and each exception is one that is
  retried. \<open>world_after func args w k\<close> is the world that these \<open>k\<close> calls leave.
\<close>

definition retryable :: "pyexc \<Rightarrow> bool" where
  "retryable e = (is_Exception e \<and> is_rate_limit e)"

fun rate_limited :: "('a, 'w, 'r) operation \<Rightarrow> 'a \<Rightarrow> 'w \<Rightarrow> nat \<Rightarrow> bool" where
  "rate_limited func args w 0 = True"
| "rate_limited func args w (Suc k) =
     (case func args w of
        (Inl e, w') \<Rightarrow> retryable e \<and> rate_limited func args w' k
      | (Inr v, w') \<Rightarrow> False)"

fun world_after :: "('a, 'w, 'r) operation \<Rightarrow> 'a \<Rightarrow> 'w \<Rightarrow> nat \<Rightarrow> 'w" where
  "world_after func args w 0 = w"
| "world_after func args w (Suc k) = world_after func args (snd (func args w)) k"

text \<open>
  \<open>backoff t f i\<close> is the value of \<open>sleep_time\<close> after \<open>i\<close> executions of line 60: \<open>t\<close>
  multiplied \<open>i\<close> times by \<open>f\<close>, each product rounded. \<open>exact_mul a b\<close> says that the
  product of \<open>a\<close> and \<open>b\<close> is finite and needs no rounding. \<open>backoff_trace args t f k\<close>
  is the trace of \<open>k\<close> failed attempts, each followed by its delay; \<open>delays\<close> and \<open>calls\<close>
  project a trace to the durations slept and to the arguments \<open>func\<close> was invoked with.
\<close>

fun backoff :: "pyfloat \<Rightarrow> pyfloat \<Rightarrow> nat \<Rightarrow> pyfloat" where
  "backoff t f 0 = t"
| "backoff t f (Suc i) = float_mul (backoff t f i) f"

definition exact_mul :: "pyfloat \<Rightarrow> pyfloat \<Rightarrow> bool" where
  "exact_mul a b =
     (is_finite a \<and> is_finite b \<and> is_finite (float_mul a b) \<and>
      real_of (float_mul a b) = real_of a * real_of b)"

definition backoff_trace :: "'a \<Rightarrow> pyfloat \<Rightarrow> pyfloat \<Rightarrow> nat \<Rightarrow> 'a event list" where
  "backoff_trace args t f k = concat (map (\<lambda>i. [Call args, Sleep (backoff t f i)]) [1..<Suc k])"

fun delays :: "'a event list \<Rightarrow> pyfloat list" where
  "delays [] = []"
| "delays (Call a # es) = delays es"
| "delays (Sleep d # es) = d # delays es"

fun calls :: "'a event list \<Rightarrow> 'a list" where
  "calls [] = []"
| "calls (Call a # es) = a # calls es"
| "calls (Sleep d # es) = calls es"

section \<open>Example operations\<close>

text \<open>
  \<open>flaky k e\<close> counts its calls in its world: the first \<open>k\<close> calls raise \<open>e\<close>, every
  later call returns \<open>"ok"\<close>. \<open>failing e\<close> raises \<open>e\<close> on every call; \<open>echo\<close> returns its
  argument.
\<close>

definition flaky :: "nat \<Rightarrow> pyexc \<Rightarrow> ('a, nat, string) operation" where
  "flaky k e args n = (if n < k then (Inl e, Suc n) else (Inr ''ok'', Suc n))"

definition failing :: "pyexc \<Rightarrow> ('a, nat, string) operation" where
  "failing e args n = (Inl e, Suc n)"

definition echo :: "(string, nat, string) operation" where
  "echo args n = (Inr args, Suc n)"

definition rate_limit_error :: pyexc where
  "rate_limit_error = PyExc ''RateLimitError'' True ''Rate_Limit reached for requests''"

definition auth_error :: pyexc where
  "auth_error = PyExc ''AuthenticationError'' True ''Invalid API key''"

definition exit_request :: pyexc where
  "exit_request = PyExc ''SystemExit'' False ''rate limit''"

text \<open>
  Some floats: \<open>1.0\<close>, \<open>1.5\<close>, \<open>3.0\<close>, \<open>- 1.0\<close>, and \<open>0.1\<close>, the double nearest to one
  tenth.
\<close>

definition float_1 :: pyfloat where "float_1 = Finite 1 0"

definition float_1_5 :: pyfloat where "float_1_5 = Finite 3 (- 1)"

definition float_3 :: pyfloat where "float_3 = Finite 3 0"

definition float_minus_1 :: pyfloat where "float_minus_1 = Finite (- 1) 0"

definition float_0_1 :: pyfloat where "float_0_1 = Finite 3602879701896397 (- 55)"

section \<open>The timestamp formatter\<close>

text \<open>
  A \<^verbatim>\<open>datetime\<close> object, as Python's \<^verbatim>\<open>datetime.datetime\<close> keeps it: calendar fields and
  microseconds. \<open>valid_datetime\<close> is the range check of its constructor
  (\<open>MINYEAR = 1\<close>, \<open>MAXYEAR = 9999\<close>, the day within the month's length).
\<close>

record datetime =
  year :: nat
  month :: nat
  day :: nat
  hour :: nat
  minute :: nat
  second :: nat
  microsecond :: nat

definition is_leap :: "nat \<Rightarrow> bool" where
  "is_leap y = (y mod 4 = 0 \<and> (y mod 100 \<noteq> 0 \<or> y mod 400 = 0))"

definition days_in_month :: "nat \<Rightarrow> nat \<Rightarrow> nat" where
  "days_in_month y m =
     (if m = 2 then (if is_leap y then 29 else 28)
      else if m = 4 \<or> m = 6 \<or> m = 9 \<or> m = 11 then 30 else 31)"

definition valid_datetime :: "datetime \<Rightarrow> bool" where
  "valid_datetime dt =
     (1 \<le> year dt \<and> year dt \<le> 9999 \<and> 1 \<le> month dt \<and> month dt \<le> 12 \<and>
      1 \<le> day dt \<and> day dt \<le> days_in_month (year dt) (month dt) \<and>
      hour dt < 24 \<and> minute dt < 60 \<and> second dt < 60 \<and> microsecond dt < 1000000)"

text \<open>
  \<open>strftime\<close> for the directives that \<open>TIMESTAMP_FORMAT\<close> uses: \<open>%Y\<close> is the year as a
  decimal number padded with zeros to four digits (padding that only years before 1000
  need), \<open>%m\<close>, \<open>%d\<close>, \<open>%H\<close>, \<open>%M\<close> and
  \<open>%S\<close> are padded to two digits, \<open>%%\<close> is a percent sign. Every other character of
  the format is copied; a directive outside this list is copied as it stands.
\<close>

definition zero_pad :: "nat \<Rightarrow> nat \<Rightarrow> string" where
  "zero_pad width n = replicate (width - length (str_nat n)) CHR ''0'' @ str_nat n"

definition directive :: "char \<Rightarrow> datetime \<Rightarrow> string" where
  "directive d dt =
     (if d = CHR ''Y'' then zero_pad 4 (year dt)
      else if d = CHR ''m'' then zero_pad 2 (month dt)
      else if d = CHR ''d'' then zero_pad 2 (day dt)
      else if d = CHR ''H'' then zero_pad 2 (hour dt)
      else if d = CHR ''M'' then zero_pad 2 (minute dt)
      else if d = CHR ''S'' then zero_pad 2 (second dt)
      else if d = CHR ''%'' then ''%''
      else [CHR ''%'', d])"

fun strftime :: "string \<Rightarrow> datetime \<Rightarrow> string" where
  "strftime [] dt = []"
| "strftime [c] dt = [c]"
| "strftime (c # d # fmt) dt =
     (if c = CHR ''%'' then directive d dt @ strftime fmt dt
      else c # strftime (d # fmt) dt)"

text \<open>
  Line 10 and lines 13 to 19. \<open>timestamp_str\<close> reads the clock: its parameter \<open>now\<close> is the
  value of \<^verbatim>\<open>datetime.datetime.now(datetime.timezone.utc)\<close> at the call, the current instant
  as a UTC \<^verbatim>\<open>datetime\<close>.
\<close>

definition TIMESTAMP_FORMAT :: string where
  "TIMESTAMP_FORMAT = ''%Y-%m-%d_%H%M%S''"

definition timestamp_str :: "datetime \<Rightarrow> string" where
  "timestamp_str now = strftime TIMESTAMP_FORMAT now"

text \<open>
  The pattern \<open>YYYY-MM-DD_HHMMSS\<close>: seventeen characters, digits everywhere but for the
  hyphens at positions 4 and 7 and the underscore at position 10. \<open>int_of_digits 0 s\<close>
  reads a string of digits back as a number.
\<close>

definition is_digit :: "char \<Rightarrow> bool" where
  "is_digit c = (48 \<le> (of_char c :: nat) \<and> (of_char c :: nat) \<le> 57)"

definition matches_timestamp_pattern :: "string \<Rightarrow> bool" where
  "matches_timestamp_pattern s =
     (length s = 17 \<and>
      list_all is_digit (take 4 s) \<and> s ! 4 = CHR ''-'' \<and>
      list_all is_digit (take 2 (drop 5 s)) \<and> s ! 7 = CHR ''-'' \<and>
      list_all is_digit (take 2 (drop 8 s)) \<and> s ! 10 = CHR ''_'' \<and>
      list_all is_digit (drop 11 s))"

fun int_of_digits :: "nat \<Rightarrow> string \<Rightarrow> nat" where
  "int_of_digits acc [] = acc"
| "int_of_digits acc (c # cs) = int_of_digits (10 * acc + (of_char c - 48)) cs"

text \<open>
  \<open>str_le\<close> is \<open>\<le>\<close> on Python strings (lexicographic, by code point), \<open>tuple_le\<close> is
  \<open>\<le>\<close> on tuples of numbers. Two \<^verbatim>\<open>datetime\<close> objects of the same time zone compare as
  the tuples of their fields: \<open>datetime_le a b\<close> says that the instant \<open>a\<close> is not later
  than the instant \<open>b\<close>.
\<close>

fun str_le :: "string \<Rightarrow> string \<Rightarrow> bool" where
  "str_le [] t = True"
| "str_le (c # cs) [] = False"
| "str_le (c # cs) (d # ds) = ((of_char c :: nat) < of_char d \<or> (c = d \<and> str_le cs ds))"

fun tuple_le :: "nat list \<Rightarrow> nat list \<Rightarrow> bool" where
  "tuple_le [] t = True"
| "tuple_le (x # xs) [] = False"
| "tuple_le (x # xs) (y # ys) = (x < y \<or> (x = y \<and> tuple_le xs ys))"

definition datetime_le :: "datetime \<Rightarrow> datetime \<Rightarrow> bool" where
  "datetime_le a b =
     tuple_le [year a, month a, day a, hour a, minute a, second a, microsecond a]
              [year b, month b, day b, hour b, minute b, second b, microsecond b]"

text \<open>Two instants, one second apart (the microseconds differ as well).\<close>

definition release_instant :: datetime where
  "release_instant = \<lparr>year = 2024, month = 3, day = 7, hour = 14, minute = 23, second = 5,
     microsecond = 120000\<rparr>"

definition later_instant :: datetime where
  "later_instant = \<lparr>year = 2024, month = 3, day = 7, hour = 14, minute = 23, second = 6,
     microsecond = 0\<rparr>"

section \<open>Properties of the loop\<close>

lemma backoff_shift: "backoff (float_mul t f) f i = backoff t f (Suc i)"
  by (induction i) simp_all

lemma backoff_trace_0: "backoff_trace args t f 0 = []"
  by (simp add: backoff_trace_def)

lemma backoff_trace_Suc:
  "backoff_trace args t f (Suc k) =
     [Call args, Sleep (float_mul t f)] @ backoff_trace args (float_mul t f) f k"
proof -
  have "[1..<Suc (Suc k)] = 1 # map Suc [1..<Suc k]"
    by (simp add: map_Suc_upt upt_conv_Cons del: upt_Suc)
  then show ?thesis
    by (simp add: backoff_trace_def comp_def backoff_shift del: upt_Suc backoff.simps)
       (simp add: backoff_shift [symmetric] del: upt_Suc)
qed

lemma backoff_trace_snoc:
  "backoff_trace args t f (Suc k) = backoff_trace args t f k @ [Call args, Sleep (backoff t f (Suc k))]"
  by (simp add: backoff_trace_def)

lemma retry_loop_rate_limited:
  "rate_limited func args (world \<sigma>) k \<Longrightarrow> \<forall>i\<in>{1..k}. raises (backoff t f i) = None \<Longrightarrow>
   retry_loop raises func f args (k + n) t \<sigma> =
   retry_loop raises func f args n (backoff t f k)
     \<lparr>world = world_after func args (world \<sigma>) k, trace = trace \<sigma> @ backoff_trace args t f k\<rparr>"
proof (induction k arbitrary: t \<sigma>)
  case 0
  then show ?case by (cases \<sigma>) (simp add: backoff_trace_0)
next
  case (Suc k)
  from Suc.prems(1) obtain e w' where
    f: "func args (world \<sigma>) = (Inl e, w')" and e: "is_Exception e" "is_rate_limit e"
    and rest: "rate_limited func args w' k"
    by (auto simp add: retryable_def split: prod.splits sum.splits)
  have "1 \<in> {1..Suc k}" by simp
  with Suc.prems(2) have "raises (backoff t f 1) = None" by blast
  then have first: "raises (float_mul t f) = None" by simp
  have later: "\<forall>i\<in>{1..k}. raises (backoff (float_mul t f) f i) = None"
  proof
    fix i assume "i \<in> {1..k}"
    then have "Suc i \<in> {1..Suc k}" by simp
    with Suc.prems(2) have "raises (backoff t f (Suc i)) = None" by blast
    then show "raises (backoff (float_mul t f) f i) = None" by (simp only: backoff_shift)
  qed
  let ?\<sigma> = "\<lparr>world = w', trace = trace \<sigma> @ [Call args, Sleep (float_mul t f)]\<rparr>"
  have step: "retry_loop raises func f args (Suc (k + n)) t \<sigma> =
              retry_loop raises func f args (k + n) (float_mul t f) ?\<sigma>"
    using f e first by (cases \<sigma>) (simp add: invoke_def time_sleep_def Let_def)
  have "rate_limited func args (world ?\<sigma>) k" using rest by simp
  from Suc.IH [OF this later]
  have "retry_loop raises func f args (k + n) (float_mul t f) ?\<sigma> =
        retry_loop raises func f args n (backoff t f (Suc k))
          \<lparr>world = world_after func args (world \<sigma>) (Suc k),
             trace = trace \<sigma> @ backoff_trace args t f (Suc k)\<rparr>"
    using f by (simp add: backoff_trace_Suc backoff_shift del: backoff.simps)
  with step show ?case by (simp del: retry_loop.simps world_after.simps backoff.simps)
qed

lemma delays_append: "delays (xs @ ys) = delays xs @ delays ys"
  by (induction xs rule: delays.induct) simp_all

lemma calls_append: "calls (xs @ ys) = calls xs @ calls ys"
  by (induction xs rule: calls.induct) simp_all

lemma delays_backoff_trace: "delays (backoff_trace args t f k) = map (backoff t f) [1..<Suc k]"
  by (induction k) (simp_all add: backoff_trace_0 backoff_trace_snoc delays_append del: backoff.simps)

lemma calls_backoff_trace: "calls (backoff_trace args t f k) = replicate k args"
  by (induction k)
     (simp_all add: backoff_trace_0 backoff_trace_snoc calls_append replicate_append_same
        del: backoff.simps)

lemma wrapper_rate_limited:
  assumes "rate_limited func args w k" and "\<forall>i\<in>{1..k}. raises (backoff t f i) = None"
    and "nat max_retries = k + n"
  shows "wrapper raises func max_retries t f args w =
     (case retry_loop raises func f args n (backoff t f k)
            \<lparr>world = world_after func args w k, trace = backoff_trace args t f k\<rparr> of
        (Some out, \<sigma>) \<Rightarrow> (out, \<sigma>)
      | (None, \<sigma>) \<Rightarrow> (Inl (max_retries_exceeded max_retries), \<sigma>))"
proof -
  have "rate_limited func args (world \<lparr>world = w, trace = []\<rparr>) k"
    using assms(1) by simp
  from retry_loop_rate_limited [OF this assms(2), of n] show ?thesis
    by (simp add: wrapper_def assms(3) del: retry_loop.simps)
qed

lemma backoff_exact:
  assumes "is_finite t" and "\<forall>j<k. exact_mul (backoff t f j) f"
  shows "i \<le> k \<Longrightarrow> real_of (backoff t f i) = real_of t * real_of f ^ i"
proof (induction i)
  case 0
  then show ?case by simp
next
  case (Suc i)
  then have "i < k" by simp
  with assms(2) have "exact_mul (backoff t f i) f" by blast
  then have "real_of (backoff t f (Suc i)) = real_of (backoff t f i) * real_of f"
    by (simp add: exact_mul_def)
  with Suc show ?case by simp
qed

lemma contains_iff: "contains sub s \<longleftrightarrow> (\<exists>pre post. s = pre @ sub @ post)"
proof (induction s)
  case Nil
  then show ?case by auto
next
  case (Cons c cs)
  show ?case
  proof
    assume "contains sub (c # cs)"
    then consider "prefix sub (c # cs)" | "contains sub cs" by auto
    then show "\<exists>pre post. c # cs = pre @ sub @ post"
    proof cases
      case 1
      then obtain post where "c # cs = sub @ post" by (auto simp: prefix_def)
      then have "c # cs = [] @ sub @ post" by simp
      then show ?thesis by blast
    next
      case 2
      with Cons.IH obtain pre post where "cs = pre @ sub @ post" by blast
      then have "c # cs = (c # pre) @ sub @ post" by simp
      then show ?thesis by blast
    qed
  next
    assume "\<exists>pre post. c # cs = pre @ sub @ post"
    then obtain pre post where eq: "c # cs = pre @ sub @ post" by blast
    show "contains sub (c # cs)"
    proof (cases pre)
      case Nil
      with eq have "prefix sub (c # cs)" by (simp add: prefix_def)
      then show ?thesis by simp
    next
      case (Cons p ps)
      with eq have "cs = ps @ sub @ post" by simp
      with Cons.IH have "contains sub cs" by blast
      then show ?thesis by simp
    qed
  qed
qed

lemma contains_infix: "contains sub (pre @ sub @ post)"
  unfolding contains_iff by blast

lemma exc_str_max_retries_exceeded:
  "exc_str (max_retries_exceeded n) = ''Maximum retries '' @ str_int n @ '' exceeded''"
  by (simp add: max_retries_exceeded_def)

lemma max_retries_exceeded_contains:
  "contains (str_int n) (exc_str (max_retries_exceeded n))"
  by (simp only: exc_str_max_retries_exceeded contains_infix)

lemma rate_limit_error_retryable: "retryable rate_limit_error"
  by code_simp

lemma auth_error_not_retryable: "\<not> retryable auth_error"
  by code_simp

lemma exit_request_matches: "is_rate_limit exit_request"
  by code_simp

lemma rate_limited_failing: "retryable e \<Longrightarrow> rate_limited (failing e) args w k"
  by (induction k arbitrary: w) (simp_all add: failing_def)

lemma is_rate_limit_PyExc:
  "is_rate_limit (PyExc c b m) = contains ''rate limit'' (replace_char CHR ''_'' CHR '' '' (lower m))"
  by (simp add: is_rate_limit_def)

lemma classify_examples:
  "contains ''rate limit'' (replace_char CHR ''_'' CHR '' '' (lower ''Rate Limit exceeded''))"
  "contains ''rate limit'' (replace_char CHR ''_'' CHR '' '' (lower ''RATE_LIMIT''))"
  "contains ''rate limit'' (replace_char CHR ''_'' CHR '' '' (lower ''rate limit''))"
  "\<not> contains ''rate limit'' (replace_char CHR ''_'' CHR '' '' (lower ''ratelimit''))"
  by code_simp+

lemma bitlen_numeral [simp]:
  "bitlen 0 = 0" "bitlen (Suc 0) = Suc 0"
  "bitlen (numeral (Num.Bit0 n)) = Suc (bitlen (numeral n))"
  "bitlen (numeral (Num.Bit1 n)) = Suc (bitlen (numeral n))"
  by (subst bitlen.simps, simp add: bitlen.simps)+

lemma float_products:
  "float_mul float_1 float_1_5 = Finite 3 (- 1)"
  "float_mul (Finite 3 (- 1)) float_1_5 = Finite 9 (- 2)"
  "float_mul (Finite 9 (- 2)) float_1_5 = Finite 27 (- 3)"
  "float_mul float_minus_1 float_1_5 = Finite (- 3) (- 1)"
  "float_mul float_0_1 float_3 = Finite 5404319552844596 (- 54)"
  "float_mul NaN float_1_5 = NaN"
  by (simp_all add: float_1_def float_1_5_def float_minus_1_def float_0_1_def float_3_def
        round_double_def Let_def round_half_even_def)

lemma sleep_checks:
  "cpython_sleep_check (Finite 3 (- 1)) = None"
  "cpython_sleep_check (Finite 9 (- 2)) = None"
  "cpython_sleep_check (Finite 27 (- 3)) = None"
  "cpython_sleep_check (Finite 5404319552844596 (- 54)) = None"
  "cpython_sleep_check (Finite (- 3) (- 1)) =
     Some (PyExc ''ValueError'' True ''sleep length must be non-negative'')"
  "cpython_sleep_check NaN =
     Some (PyExc ''ValueError'' True ''Invalid value NaN (not a number)'')"
  by (simp_all add: cpython_sleep_check_def round_double_def Let_def round_half_even_def)

lemma retry_loop_extends:
  "\<exists>ev. trace (snd (retry_loop raises func f args n t \<sigma>)) = trace \<sigma> @ ev \<and>
        (\<forall>a\<in>set (calls ev). a = args)"
proof (induction n arbitrary: t \<sigma>)
  case 0
  then show ?case by simp
next
  case (Suc n)
  obtain out w' where f: "func args (world \<sigma>) = (out, w')" by (cases "func args (world \<sigma>)")
  let ?\<sigma>1 = "\<sigma>\<lparr>world := w', trace := trace \<sigma> @ [Call args]\<rparr>"
  have inv: "invoke func args \<sigma> = (out, ?\<sigma>1)" by (simp add: invoke_def f)
  have one: "\<forall>a\<in>set (calls [Call args]). a = args" by simp
  consider (stop) "trace (snd (retry_loop raises func f args (Suc n) t \<sigma>)) = trace \<sigma> @ [Call args]"
    | (go) e where "out = Inl e" "is_Exception e" "is_rate_limit e" "raises (float_mul t f) = None"
  proof (cases out)
    case (Inr v)
    with inv have "trace (snd (retry_loop raises func f args (Suc n) t \<sigma>)) = trace \<sigma> @ [Call args]"
      by simp
    then show ?thesis by (rule stop)
  next
    case (Inl e)
    show ?thesis
    proof (cases "is_Exception e \<and> is_rate_limit e \<and> raises (float_mul t f) = None")
      case True
      with Inl show ?thesis by (intro go) (simp, blast+)
    next
      case False
      with inv Inl
      have "trace (snd (retry_loop raises func f args (Suc n) t \<sigma>)) = trace \<sigma> @ [Call args]"
        by (auto simp add: Let_def time_sleep_def split: option.splits)
      then show ?thesis by (rule stop)
    qed
  qed
  then show ?case
  proof cases
    case stop
    with one show ?thesis by blast
  next
    case (go e)
    let ?\<sigma>2 = "?\<sigma>1\<lparr>trace := trace ?\<sigma>1 @ [Sleep (float_mul t f)]\<rparr>"
    from inv go
    have step: "retry_loop raises func f args (Suc n) t \<sigma> =
                retry_loop raises func f args n (float_mul t f) ?\<sigma>2"
      by (simp add: Let_def time_sleep_def)
    from Suc.IH [of "float_mul t f" ?\<sigma>2] obtain ev where
      ev: "trace (snd (retry_loop raises func f args n (float_mul t f) ?\<sigma>2)) = trace ?\<sigma>2 @ ev"
      and cs: "\<forall>a\<in>set (calls ev). a = args" by blast
    have "trace (snd (retry_loop raises func f args (Suc n) t \<sigma>)) =
          trace \<sigma> @ ([Call args, Sleep (float_mul t f)] @ ev)"
      using ev by (simp add: step del: retry_loop.simps)
    moreover have "\<forall>a\<in>set (calls ([Call args, Sleep (float_mul t f)] @ ev)). a = args"
      using cs by simp
    ultimately show ?thesis by blast
  qed
qed

lemma wrapper_trace:
  "trace (snd (wrapper raises func max_retries t f args w)) =
   trace (snd (retry_loop raises func f args (nat max_retries) t \<lparr>world = w, trace = []\<rparr>))"
  by (simp add: wrapper_def split: prod.splits option.splits)

lemma first_failure_retried:
  assumes "func args w = (Inl e, w')" and "retryable e" and "0 < max_retries"
    and "raises (float_mul t f) = None"
  shows "take 2 (trace (snd (wrapper raises func max_retries t f args w))) =
           [Call args, Sleep (float_mul t f)]"
proof -
  from assms(3) obtain n where n: "nat max_retries = Suc n"
    by (metis gr0_implies_Suc zero_less_nat_eq)
  let ?\<sigma> = "\<lparr>world = w', trace = [Call args, Sleep (float_mul t f)]\<rparr>"
  have "retry_loop raises func f args (Suc n) t \<lparr>world = w, trace = []\<rparr> =
        retry_loop raises func f args n (float_mul t f) ?\<sigma>"
    using assms(1,2,4) by (simp add: invoke_def time_sleep_def Let_def retryable_def)
  moreover from retry_loop_extends [of raises func f args n "float_mul t f" ?\<sigma>] obtain ev where
    "trace (snd (retry_loop raises func f args n (float_mul t f) ?\<sigma>)) =
       [Call args, Sleep (float_mul t f)] @ ev"
    by auto
  ultimately show ?thesis
    by (simp add: wrapper_trace n del: retry_loop.simps)
qed

lemma first_failure_sleep_rejected:
  assumes "func args w = (Inl e, w')" and "retryable e" and "0 < max_retries"
    and "raises (float_mul t f) = Some err"
  shows "wrapper raises func max_retries t f args w = (Inl err, \<lparr>world = w', trace = [Call args]\<rparr>)"
proof -
  from assms(3) obtain n where n: "nat max_retries = Suc n"
    by (metis gr0_implies_Suc zero_less_nat_eq)
  show ?thesis
    using assms(1,2,4) by (simp add: wrapper_def n invoke_def time_sleep_def Let_def retryable_def)
qed

lemma first_failure_propagated:
  assumes "func args w = (Inl e, w')" and "\<not> retryable e" and "0 < max_retries"
  shows "wrapper raises func max_retries t f args w = (Inl e, \<lparr>world = w', trace = [Call args]\<rparr>)"
proof -
  from assms(3) obtain n where n: "nat max_retries = Suc n"
    by (metis gr0_implies_Suc zero_less_nat_eq)
  show ?thesis using assms(1,2) by (auto simp add: wrapper_def n invoke_def retryable_def)
qed

lemma real_of_examples:
  "real_of float_1 = 1" "real_of float_1_5 = 3 / 2" "real_of (Finite 3 (- 1)) = 3 / 2"
  "real_of (Finite 9 (- 2)) = 9 / 4"
  by (simp_all add: float_1_def float_1_5_def)

lemma backoff_examples:
  "backoff float_1 float_1_5 1 = Finite 3 (- 1)"
  "backoff float_1 float_1_5 2 = Finite 9 (- 2)"
  "backoff float_1 float_1_5 3 = Finite 27 (- 3)"
  by (simp_all add: eval_nat_numeral float_products)

lemma short_delays_accepted:
  "\<forall>i\<in>{1..k}. cpython_sleep_check (backoff float_1 float_1_5 i) = None" if "k \<le> 3"
proof
  fix i assume "i \<in> {1..k}"
  with that have "i = 1 \<or> i = 2 \<or> i = 3" by auto
  then show "cpython_sleep_check (backoff float_1 float_1_5 i) = None"
    by (auto simp add: eval_nat_numeral float_products sleep_checks)
qed

lemma Call_in_calls: "Call a \<in> set tr \<Longrightarrow> a \<in> set (calls tr)"
  by (induction tr rule: calls.induct) auto

section \<open>The claims about the retrying wrapper\<close>

text \<open>
  C1. An operation that fails with a retried rate-limit error exactly \<open>k\<close>
  times, with \<open>k < max_retries\<close>, and then succeeds with \<open>v\<close>, where \<open>time.sleep\<close>
  accepts each of the \<open>k\<close> delays: the wrapper returns \<open>v\<close>, and its trace is \<open>k\<close> times
  an attempt followed by a delay, then the successful attempt. There are exactly \<open>k\<close>
  delays, the trace starts with an attempt, and the \<open>i\<close>-th delay (\<open>i = 1..k\<close>) is
  \<open>initial_sleep_time\<close> multiplied \<open>i\<close> times by \<open>backoff_factor\<close> in floating point. It is
  \<open>initial_sleep_time * backoff_factor ^ i\<close> when these products need no rounding.
\<close>

theorem backoff_then_success:
  assumes "rate_limited func args w k"
    and "func args (world_after func args w k) = (Inr v, w')"
    and "int k < max_retries"
    and "\<forall>i\<in>{1..k}. raises (backoff initial_sleep_time backoff_factor i) = None"
  shows "retry_with_exponential_backoff raises func max_retries initial_sleep_time backoff_factor
           args w =
           (Inr v, \<lparr>world = w',
              trace = concat (map (\<lambda>i. [Call args,
                                         Sleep (backoff initial_sleep_time backoff_factor i)])
                        [1..<Suc k]) @ [Call args]\<rparr>)
       \<and> (is_finite initial_sleep_time
            \<and> (\<forall>j<k. exact_mul (backoff initial_sleep_time backoff_factor j) backoff_factor)
          \<longrightarrow> (\<forall>i\<le>k. real_of (backoff initial_sleep_time backoff_factor i)
                        = real_of initial_sleep_time * real_of backoff_factor ^ i))"
proof -
  from assms(3) have "k < nat max_retries" by linarith
  then obtain n where n: "nat max_retries = k + Suc n"
    using less_imp_Suc_add by auto
  have "retry_with_exponential_backoff raises func max_retries initial_sleep_time backoff_factor
           args w =
           (Inr v, \<lparr>world = w',
              trace = concat (map (\<lambda>i. [Call args,
                                         Sleep (backoff initial_sleep_time backoff_factor i)])
                        [1..<Suc k]) @ [Call args]\<rparr>)"
    unfolding retry_with_exponential_backoff_def wrapper_rate_limited [OF assms(1,4) n]
    using assms(2) by (simp add: invoke_def backoff_trace_def del: backoff.simps)
  moreover have "is_finite initial_sleep_time
            \<and> (\<forall>j<k. exact_mul (backoff initial_sleep_time backoff_factor j) backoff_factor)
          \<longrightarrow> (\<forall>i\<le>k. real_of (backoff initial_sleep_time backoff_factor i)
                        = real_of initial_sleep_time * real_of backoff_factor ^ i)"
    using backoff_exact by blast
  ultimately show ?thesis by (intro conjI)
qed

theorem backoff_then_success_witness:
  "retry_with_exponential_backoff cpython_sleep_check (flaky 2 rate_limit_error) 5
     float_1 float_1_5 () 0 =
     (Inr ''ok'', \<lparr>world = 3,
        trace = [Call (), Sleep (Finite 3 (- 1)), Call (), Sleep (Finite 9 (- 2)), Call ()]\<rparr>)
   \<and> real_of (Finite 3 (- 1)) = 1 * (3 / 2) ^ 1 \<and> real_of (Finite 9 (- 2)) = 1 * (3 / 2) ^ 2"
proof -
  have a: "rate_limited (flaky 2 rate_limit_error) () 0 2"
    by (simp add: numeral_2_eq_2 flaky_def rate_limit_error_retryable)
  have b: "flaky 2 rate_limit_error () (world_after (flaky 2 rate_limit_error) () 0 2) = (Inr ''ok'', 3)"
    by (simp add: numeral_2_eq_2 flaky_def)
  have c: "int 2 < 5" by simp
  have d: "\<forall>i\<in>{1..2}. cpython_sleep_check (backoff float_1 float_1_5 i) = None"
    by (rule short_delays_accepted) simp
  note t = backoff_then_success [OF a b c d]
  from t [THEN conjunct1]
  have 1: "retry_with_exponential_backoff cpython_sleep_check (flaky 2 rate_limit_error) 5
     float_1 float_1_5 () 0 =
     (Inr ''ok'', \<lparr>world = 3,
        trace = [Call (), Sleep (Finite 3 (- 1)), Call (), Sleep (Finite 9 (- 2)), Call ()]\<rparr>)"
    by (simp add: eval_nat_numeral float_products)
  have f: "is_finite float_1" by (simp add: float_1_def)
  have x: "\<forall>j<2. exact_mul (backoff float_1 float_1_5 j) float_1_5"
  proof (intro allI impI)
    fix j :: nat assume "j < 2"
    then have "j = 0 \<or> j = 1" by auto
    then show "exact_mul (backoff float_1 float_1_5 j) float_1_5"
      by (auto simp add: exact_mul_def float_products real_of_examples)
         (simp_all add: float_1_def float_1_5_def)
  qed
  from t [THEN conjunct2, rule_format, OF conjI [OF f x]]
  have e: "real_of (backoff float_1 float_1_5 i) = real_of float_1 * real_of float_1_5 ^ i"
    if "i \<le> 2" for i using that by blast
  from e [of 1] have 2: "real_of (Finite 3 (- 1)) = 1 * (3 / 2) ^ 1"
    by (simp add: float_products real_of_examples)
  from e [of 2] have 3: "real_of (Finite 9 (- 2)) = 1 * (3 / 2) ^ 2"
    by (simp add: eval_nat_numeral float_products real_of_examples)
  from 1 2 3 show ?thesis by (intro conjI)
qed

text \<open>
  Without the condition on the delays, and with the unrounded product, C1 does not
  hold. With \<open>initial_sleep_time = - 1.0\<close> the operation fails once and would then
  succeed, but \<open>time.sleep(- 1.5)\<close> raises and the wrapper ends with that error after
  one call. With \<open>initial_sleep_time = 0.1\<close> and \<open>backoff_factor = 3.0\<close> the first delay
  is \<open>0.30000000000000004\<close>, not the product of the two numbers.
\<close>

theorem backoff_then_success_counterexample:
  "rate_limited (flaky 1 rate_limit_error) () 0 1
   \<and> fst (flaky 1 rate_limit_error () (world_after (flaky 1 rate_limit_error) () 0 1)) = Inr ''ok''
   \<and> retry_with_exponential_backoff cpython_sleep_check (flaky 1 rate_limit_error) 5
        float_minus_1 float_1_5 () 0
       = (Inl (PyExc ''ValueError'' True ''sleep length must be non-negative''),
          \<lparr>world = 1, trace = [Call ()]\<rparr>)
   \<and> delays (trace (snd (retry_with_exponential_backoff cpython_sleep_check
          (flaky 1 rate_limit_error) 5 float_0_1 float_3 () 0)))
       = [Finite 5404319552844596 (- 54)]
   \<and> real_of (Finite 5404319552844596 (- 54)) \<noteq> real_of float_0_1 * real_of float_3 ^ 1"
proof -
  have r: "retryable rate_limit_error" by (rule rate_limit_error_retryable)
  then have e: "is_Exception rate_limit_error" "is_rate_limit rate_limit_error"
    by (simp_all add: retryable_def)
  have n5: "nat 5 = Suc (Suc (Suc (Suc (Suc 0))))" by simp
  have 1: "rate_limited (flaky 1 rate_limit_error) () 0 1"
    using r by (simp add: flaky_def)
  have 2: "fst (flaky 1 rate_limit_error () (world_after (flaky 1 rate_limit_error) () 0 1)) = Inr ''ok''"
    by (simp add: flaky_def)
  have 3: "retry_with_exponential_backoff cpython_sleep_check (flaky 1 rate_limit_error) 5
        float_minus_1 float_1_5 () 0
       = (Inl (PyExc ''ValueError'' True ''sleep length must be non-negative''),
          \<lparr>world = 1, trace = [Call ()]\<rparr>)"
    unfolding retry_with_exponential_backoff_def wrapper_def n5
    by (simp add: invoke_def time_sleep_def flaky_def e float_products sleep_checks)
  have 4: "delays (trace (snd (retry_with_exponential_backoff cpython_sleep_check
          (flaky 1 rate_limit_error) 5 float_0_1 float_3 () 0)))
       = [Finite 5404319552844596 (- 54)]"
    unfolding retry_with_exponential_backoff_def wrapper_def n5
    by (simp add: invoke_def time_sleep_def flaky_def e float_products sleep_checks)
  have 5: "real_of (Finite 5404319552844596 (- 54)) \<noteq> real_of float_0_1 * real_of float_3 ^ 1"
    by (simp add: float_0_1_def float_3_def)
  from 1 2 3 4 5 show ?thesis by (intro conjI)
qed

text \<open>
  C2. An operation that fails with a retried rate-limit error on every one of
  the \<open>max_retries\<close> attempts, where \<open>time.sleep\<close> accepts each of the delays: the wrapper
  raises the retries-exhausted error, after invoking the operation exactly
  \<open>nat max_retries\<close> times (that is \<open>max_retries\<close> times, for a \<open>max_retries\<close> that is not
  negative). The error is \<open>max_retries_exceeded max_retries\<close>: the text
  \<open>Maximum retries N exceeded\<close> with the decimal text of \<open>max_retries\<close> in it, a value
  computed from \<open>max_retries\<close> alone, with nothing of the failures before it.
\<close>

theorem retries_exhausted:
  assumes "rate_limited func args w (nat max_retries)"
    and "\<forall>i\<in>{1..nat max_retries}. raises (backoff initial_sleep_time backoff_factor i) = None"
  shows "fst (retry_with_exponential_backoff raises func max_retries initial_sleep_time
                backoff_factor args w)
           = Inl (max_retries_exceeded max_retries)
       \<and> calls (trace (snd (retry_with_exponential_backoff raises func max_retries
                               initial_sleep_time backoff_factor args w)))
           = replicate (nat max_retries) args
       \<and> max_retries_exceeded max_retries
           = PyExc ''Exception'' True (''Maximum retries '' @ str_int max_retries @ '' exceeded'')
       \<and> contains (str_int max_retries) (exc_str (max_retries_exceeded max_retries))"
proof -
  have n: "nat max_retries = nat max_retries + 0" by simp
  have "retry_with_exponential_backoff raises func max_retries initial_sleep_time backoff_factor
          args w =
        (Inl (max_retries_exceeded max_retries),
         \<lparr>world = world_after func args w (nat max_retries),
            trace = backoff_trace args initial_sleep_time backoff_factor (nat max_retries)\<rparr>)"
    unfolding retry_with_exponential_backoff_def wrapper_rate_limited [OF assms n] by simp
  then show ?thesis
    using max_retries_exceeded_contains [of max_retries]
    by (simp add: calls_backoff_trace max_retries_exceeded_def del: contains.simps)
qed

theorem retries_exhausted_witness:
  "fst (retry_with_exponential_backoff cpython_sleep_check (failing rate_limit_error) 3
          float_1 float_1_5 () 0)
     = Inl (PyExc ''Exception'' True ''Maximum retries 3 exceeded'')
   \<and> calls (trace (snd (retry_with_exponential_backoff cpython_sleep_check
                          (failing rate_limit_error) 3 float_1 float_1_5 () 0)))
     = [(), (), ()]"
proof -
  have a: "rate_limited (failing rate_limit_error) () 0 (nat 3)"
    by (rule rate_limited_failing [OF rate_limit_error_retryable])
  have d: "\<forall>i\<in>{1..nat 3}. cpython_sleep_check (backoff float_1 float_1_5 i) = None"
    by (rule short_delays_accepted) simp
  have s: "str_int 3 = ''3''" by code_simp
  from retries_exhausted [OF a d] show ?thesis
    by (simp add: max_retries_exceeded_def s numeral_3_eq_3)
qed

text \<open>
  Without the condition on the delays C2 does not hold: with \<open>initial_sleep_time = - 1.0\<close>
  and \<open>max_retries = 3\<close> the wrapper ends after one invocation with the error of
  \<open>time.sleep\<close>, which is not the retries-exhausted error.
\<close>

theorem retries_exhausted_counterexample:
  "rate_limited (failing rate_limit_error) () 0 (nat 3)
   \<and> retry_with_exponential_backoff cpython_sleep_check (failing rate_limit_error) 3
        float_minus_1 float_1_5 () 0
       = (Inl (PyExc ''ValueError'' True ''sleep length must be non-negative''),
          \<lparr>world = 1, trace = [Call ()]\<rparr>)
   \<and> PyExc ''ValueError'' True ''sleep length must be non-negative'' \<noteq> max_retries_exceeded 3"
proof -
  have r: "retryable rate_limit_error" by (rule rate_limit_error_retryable)
  then have e: "is_Exception rate_limit_error" "is_rate_limit rate_limit_error"
    by (simp_all add: retryable_def)
  have n3: "nat 3 = Suc (Suc (Suc 0))" by simp
  have 1: "rate_limited (failing rate_limit_error) () 0 (nat 3)"
    by (rule rate_limited_failing [OF r])
  have 2: "retry_with_exponential_backoff cpython_sleep_check (failing rate_limit_error) 3
        float_minus_1 float_1_5 () 0
       = (Inl (PyExc ''ValueError'' True ''sleep length must be non-negative''),
          \<lparr>world = 1, trace = [Call ()]\<rparr>)"
    unfolding retry_with_exponential_backoff_def wrapper_def n3
    by (simp add: invoke_def time_sleep_def failing_def e float_products sleep_checks)
  have 3: "PyExc ''ValueError'' True ''sleep length must be non-negative'' \<noteq> max_retries_exceeded 3"
    by (simp add: max_retries_exceeded_def)
  from 1 2 3 show ?thesis by (intro conjI)
qed

text \<open>
  C3. An operation whose \<open>(k+1)\<close>-th call raises an exception \<open>e\<close> that is not retried
  (it fails the test of line 59, or is not caught at all), that call being one the
  wrapper makes: it is within the retry budget, the \<open>k\<close> calls before it failed with
  retried rate-limit errors and \<open>time.sleep\<close> accepted their delays. The wrapper raises
  \<open>e\<close> itself, and the trace ends with that call: no delay follows it and no further
  attempt is made. For \<open>k = 0\<close>, a failure of the first attempt, the trace is the
  single call.
\<close>

theorem non_retryable_propagates:
  assumes "rate_limited func args w k"
    and "func args (world_after func args w k) = (Inl e, w')"
    and "\<not> retryable e"
    and "int k < max_retries"
    and "\<forall>i\<in>{1..k}. raises (backoff initial_sleep_time backoff_factor i) = None"
  shows "retry_with_exponential_backoff raises func max_retries initial_sleep_time backoff_factor
           args w =
           (Inl e, \<lparr>world = w',
              trace = concat (map (\<lambda>i. [Call args,
                                         Sleep (backoff initial_sleep_time backoff_factor i)])
                        [1..<Suc k]) @ [Call args]\<rparr>)"
proof -
  from assms(4) have "k < nat max_retries" by linarith
  then obtain n where n: "nat max_retries = k + Suc n"
    using less_imp_Suc_add by auto
  show ?thesis
    unfolding retry_with_exponential_backoff_def wrapper_rate_limited [OF assms(1,5) n]
    using assms(2,3)
    by (auto simp add: invoke_def backoff_trace_def retryable_def simp del: backoff.simps)
qed

theorem non_retryable_propagates_witness:
  "retry_with_exponential_backoff cpython_sleep_check (failing auth_error) 20
     float_1 float_1_5 () 0 =
     (Inl auth_error, \<lparr>world = 1, trace = [Call ()]\<rparr>)"
proof -
  have a: "rate_limited (failing auth_error) () 0 0" by simp
  have b: "failing auth_error () (world_after (failing auth_error) () 0 0) = (Inl auth_error, 1)"
    by (simp add: failing_def)
  have c: "int 0 < 20" by simp
  have d: "\<forall>i\<in>{1..0}. cpython_sleep_check (backoff float_1 float_1_5 i) = None" by simp
  from non_retryable_propagates [OF a b auth_error_not_retryable c d] show ?thesis
    by simp
qed

text \<open>
  C4. A failure \<open>e\<close> that is an instance of \<open>Exception\<close> is classified by its
  message alone: it is retried exactly when the message, lowercased and with underscores
  replaced by spaces, has \<open>rate limit\<close> as a substring. \<open>Rate Limit exceeded\<close>,
  \<open>RATE_LIMIT\<close> and \<open>rate limit\<close> are retried, whatever the subclass of \<open>Exception\<close>;
  \<open>ratelimit\<close> is not. A failure that is not an instance of \<open>Exception\<close> is never
  retried. The wrapper acts on this classification: after a failed first attempt with a
  retried failure it calls \<open>time.sleep\<close> with the first delay, and blocks or ends with the
  error of \<open>time.sleep\<close>; otherwise it raises the failure at once.
\<close>

theorem rate_limit_classification:
  "(retryable e \<longleftrightarrow>
      is_Exception e \<and>
      (\<exists>pre post. replace_char CHR ''_'' CHR '' '' (lower (exc_str e)) = pre @ ''rate limit'' @ post))
   \<and> retryable (PyExc c True ''Rate Limit exceeded'')
   \<and> retryable (PyExc c True ''RATE_LIMIT'')
   \<and> retryable (PyExc c True ''rate limit'')
   \<and> \<not> retryable (PyExc c b ''ratelimit'')
   \<and> (func args w = (Inl e, w') \<and> 0 < max_retries \<longrightarrow>
        (if retryable e
         then (case raises (float_mul initial_sleep_time backoff_factor) of
                 None \<Rightarrow>
                   take 2 (trace (snd (retry_with_exponential_backoff raises func max_retries
                     initial_sleep_time backoff_factor args w)))
                   = [Call args, Sleep (float_mul initial_sleep_time backoff_factor)]
               | Some err \<Rightarrow>
                   retry_with_exponential_backoff raises func max_retries
                     initial_sleep_time backoff_factor args w
                   = (Inl err, \<lparr>world = w', trace = [Call args]\<rparr>))
         else retry_with_exponential_backoff raises func max_retries
                 initial_sleep_time backoff_factor args w
              = (Inl e, \<lparr>world = w', trace = [Call args]\<rparr>)))"
proof -
  have 1: "retryable e \<longleftrightarrow>
      is_Exception e \<and>
      (\<exists>pre post. replace_char CHR ''_'' CHR '' '' (lower (exc_str e)) = pre @ ''rate limit'' @ post)"
    unfolding retryable_def is_rate_limit_def contains_iff ..
  have 2: "retryable (PyExc c True ''Rate Limit exceeded'')" "retryable (PyExc c True ''RATE_LIMIT'')"
    "retryable (PyExc c True ''rate limit'')" "\<not> retryable (PyExc c b ''ratelimit'')"
    unfolding retryable_def is_rate_limit_PyExc using classify_examples by simp_all
  have 3: "func args w = (Inl e, w') \<and> 0 < max_retries \<longrightarrow>
        (if retryable e
         then (case raises (float_mul initial_sleep_time backoff_factor) of
                 None \<Rightarrow>
                   take 2 (trace (snd (retry_with_exponential_backoff raises func max_retries
                     initial_sleep_time backoff_factor args w)))
                   = [Call args, Sleep (float_mul initial_sleep_time backoff_factor)]
               | Some err \<Rightarrow>
                   retry_with_exponential_backoff raises func max_retries
                     initial_sleep_time backoff_factor args w
                   = (Inl err, \<lparr>world = w', trace = [Call args]\<rparr>))
         else retry_with_exponential_backoff raises func max_retries
                 initial_sleep_time backoff_factor args w
              = (Inl e, \<lparr>world = w', trace = [Call args]\<rparr>))"
  proof (intro impI, elim conjE)
    assume f: "func args w = (Inl e, w')" and m: "0 < max_retries"
    show "if retryable e
         then (case raises (float_mul initial_sleep_time backoff_factor) of
                 None \<Rightarrow>
                   take 2 (trace (snd (retry_with_exponential_backoff raises func max_retries
                     initial_sleep_time backoff_factor args w)))
                   = [Call args, Sleep (float_mul initial_sleep_time backoff_factor)]
               | Some err \<Rightarrow>
                   retry_with_exponential_backoff raises func max_retries
                     initial_sleep_time backoff_factor args w
                   = (Inl err, \<lparr>world = w', trace = [Call args]\<rparr>))
         else retry_with_exponential_backoff raises func max_retries
                 initial_sleep_time backoff_factor args w
              = (Inl e, \<lparr>world = w', trace = [Call args]\<rparr>)"
    proof (cases "retryable e")
      case False
      with first_failure_propagated [of func args w, OF f False m] show ?thesis
        by (simp add: retry_with_exponential_backoff_def)
    next
      case True
      show ?thesis
      proof (cases "raises (float_mul initial_sleep_time backoff_factor)")
        case None
        with first_failure_retried [of func args w e w' max_retries raises initial_sleep_time
            backoff_factor, OF f True m None] True show ?thesis
          by (simp add: retry_with_exponential_backoff_def)
      next
        case (Some err)
        with first_failure_sleep_rejected [of func args w e w' max_retries raises initial_sleep_time
            backoff_factor err, OF f True m Some] True show ?thesis
          by (simp add: retry_with_exponential_backoff_def)
      qed
    qed
  qed
  from 1 2 3 show ?thesis by (intro conjI)
qed

theorem rate_limit_classification_witness:
  "retry_with_exponential_backoff cpython_sleep_check
     (failing (PyExc ''APIError'' True ''ratelimit'')) 20 float_1 float_1_5 () 0
     = (Inl (PyExc ''APIError'' True ''ratelimit''), \<lparr>world = 1, trace = [Call ()]\<rparr>)
   \<and> take 2 (trace (snd (retry_with_exponential_backoff cpython_sleep_check
                (failing (PyExc ''APIError'' True ''RATE_LIMIT'')) 20 float_1 float_1_5 () 0)))
     = [Call (), Sleep (Finite 3 (- 1))]"
proof -
  have a: "failing (PyExc ''APIError'' True ''ratelimit'') () 0
             = (Inl (PyExc ''APIError'' True ''ratelimit''), 1) \<and> (0::int) < 20"
    by (simp add: failing_def)
  have b: "failing (PyExc ''APIError'' True ''RATE_LIMIT'') () 0
             = (Inl (PyExc ''APIError'' True ''RATE_LIMIT''), 1) \<and> (0::int) < 20"
    by (simp add: failing_def)
  have n: "\<not> retryable (PyExc ''APIError'' True ''ratelimit'')"
    unfolding retryable_def is_rate_limit_PyExc using classify_examples by simp
  have y: "retryable (PyExc ''APIError'' True ''RATE_LIMIT'')"
    unfolding retryable_def is_rate_limit_PyExc using classify_examples by simp
  have s: "cpython_sleep_check (float_mul float_1 float_1_5) = None"
    by (simp add: float_products sleep_checks)
  note behaviour = rate_limit_classification
    [THEN conjunct2, THEN conjunct2, THEN conjunct2, THEN conjunct2, THEN conjunct2, rule_format]
  from behaviour [of "failing (PyExc ''APIError'' True ''ratelimit'')" "()" 0 _ 1 20, OF a] n
  have 1: "retry_with_exponential_backoff cpython_sleep_check
     (failing (PyExc ''APIError'' True ''ratelimit'')) 20 float_1 float_1_5 () 0
     = (Inl (PyExc ''APIError'' True ''ratelimit''), \<lparr>world = 1, trace = [Call ()]\<rparr>)"
    by (simp only: if_False)
  from behaviour [of "failing (PyExc ''APIError'' True ''RATE_LIMIT'')" "()" 0 _ 1 20
      cpython_sleep_check float_1 float_1_5, OF b] y s
  have 2: "take 2 (trace (snd (retry_with_exponential_backoff cpython_sleep_check
                (failing (PyExc ''APIError'' True ''RATE_LIMIT'')) 20 float_1 float_1_5 () 0)))
     = [Call (), Sleep (Finite 3 (- 1))]"
    by (simp add: float_products)
  from 1 2 show ?thesis by (intro conjI)
qed

text \<open>
  For a failure that is not an instance of \<open>Exception\<close> the message does not decide: a \<open>SystemExit\<close> with the message
  \<open>rate limit\<close> passes the test of line 59, yet the handler never sees it and the
  wrapper ends with it after one call.
\<close>

theorem rate_limit_classification_counterexample:
  "exc_str exit_request = ''rate limit''
   \<and> is_rate_limit exit_request
   \<and> retry_with_exponential_backoff cpython_sleep_check (failing exit_request) 20
        float_1 float_1_5 () 0
       = (Inl exit_request, \<lparr>world = 1, trace = [Call ()]\<rparr>)"
proof -
  have 1: "exc_str exit_request = ''rate limit''" by (simp add: exit_request_def)
  have 2: "\<not> retryable exit_request" by (simp add: retryable_def exit_request_def)
  have f: "failing exit_request () 0 = (Inl exit_request, 1)" by (simp add: failing_def)
  have 3: "retry_with_exponential_backoff cpython_sleep_check (failing exit_request) 20
        float_1 float_1_5 () 0
       = (Inl exit_request, \<lparr>world = 1, trace = [Call ()]\<rparr>)"
    unfolding retry_with_exponential_backoff_def
    by (rule first_failure_propagated [of "failing exit_request" "()" 0, OF f 2]) simp
  from 1 exit_request_matches 3 show ?thesis by (intro conjI)
qed

text \<open>
  C5. An operation that succeeds on the first attempt (there is a first attempt when
  \<open>max_retries\<close> is at least 1), for any arguments: the wrapper returns the operation's
  result \<open>v\<close> unchanged, the operation was invoked once with the caller's arguments,
  and nothing was slept.
\<close>

theorem first_attempt_success:
  assumes "func args w = (Inr v, w')" and "0 < max_retries"
  shows "retry_with_exponential_backoff raises func max_retries initial_sleep_time backoff_factor
           args w =
           (Inr v, \<lparr>world = w', trace = [Call args]\<rparr>)"
proof -
  from assms(2) obtain n where n: "nat max_retries = Suc n"
    by (metis gr0_implies_Suc zero_less_nat_eq)
  show ?thesis
    using assms(1) by (simp add: retry_with_exponential_backoff_def wrapper_def n invoke_def)
qed

theorem first_attempt_success_witness:
  "retry_with_exponential_backoff cpython_sleep_check echo 20 float_1 float_1_5 ''prompt'' 0 =
     (Inr ''prompt'', \<lparr>world = 1, trace = [Call ''prompt'']\<rparr>)"
proof -
  have a: "echo ''prompt'' 0 = (Inr ''prompt'', 1)" by (simp add: echo_def)
  have b: "(0::int) < 20" by simp
  from first_attempt_success [of echo "''prompt''" 0 "''prompt''" 1 20, OF a b]
  show ?thesis .
qed



text \<open>
  C9. The wrapper sleeps after every retried rate-limit failure, the one of the
  last permitted attempt included: for an operation that fails with retried rate-limit
  errors on all \<open>max_retries\<close> attempts, where \<open>time.sleep\<close> accepts each of the delays,
  the trace is \<open>max_retries\<close> times an attempt followed by a delay. There are exactly
  \<open>max_retries\<close> delays, and the last event before the retries-exhausted error is a
  delay, with no attempt after it.
\<close>

theorem sleeps_after_last_attempt:
  assumes "rate_limited func args w (nat max_retries)"
    and "\<forall>i\<in>{1..nat max_retries}. raises (backoff initial_sleep_time backoff_factor i) = None"
  shows "retry_with_exponential_backoff raises func max_retries initial_sleep_time backoff_factor
           args w =
           (Inl (max_retries_exceeded max_retries),
            \<lparr>world = world_after func args w (nat max_retries),
               trace = concat (map (\<lambda>i. [Call args,
                                          Sleep (backoff initial_sleep_time backoff_factor i)])
                         [1..<Suc (nat max_retries)])\<rparr>)
       \<and> length (delays (trace (snd (retry_with_exponential_backoff raises func max_retries
                                        initial_sleep_time backoff_factor args w))))
           = nat max_retries
       \<and> (if 0 < max_retries
          then last (trace (snd (retry_with_exponential_backoff raises func max_retries
                                   initial_sleep_time backoff_factor args w)))
                 = Sleep (backoff initial_sleep_time backoff_factor (nat max_retries))
          else trace (snd (retry_with_exponential_backoff raises func max_retries
                             initial_sleep_time backoff_factor args w)) = [])"
proof -
  have n: "nat max_retries = nat max_retries + 0" by simp
  have R: "retry_with_exponential_backoff raises func max_retries initial_sleep_time
             backoff_factor args w =
        (Inl (max_retries_exceeded max_retries),
         \<lparr>world = world_after func args w (nat max_retries),
            trace = backoff_trace args initial_sleep_time backoff_factor (nat max_retries)\<rparr>)"
    unfolding retry_with_exponential_backoff_def wrapper_rate_limited [OF assms n] by simp
  have last: "last (backoff_trace args initial_sleep_time backoff_factor (nat max_retries))
                = Sleep (backoff initial_sleep_time backoff_factor (nat max_retries))"
    if "0 < max_retries"
  proof -
    from that obtain m where m: "nat max_retries = Suc m"
      by (metis gr0_implies_Suc zero_less_nat_eq)
    show ?thesis unfolding m backoff_trace_snoc by simp
  qed
  have empty: "backoff_trace args initial_sleep_time backoff_factor (nat max_retries) = []"
    if "\<not> 0 < max_retries"
    using that by (simp add: backoff_trace_0)
  show ?thesis
    unfolding R using last empty
    by (simp add: delays_backoff_trace) (simp add: backoff_trace_def)
qed

theorem sleeps_after_last_attempt_witness:
  "retry_with_exponential_backoff cpython_sleep_check (failing rate_limit_error) 2
     float_1 float_1_5 () 0 =
     (Inl (PyExc ''Exception'' True ''Maximum retries 2 exceeded''),
      \<lparr>world = 2, trace = [Call (), Sleep (Finite 3 (- 1)), Call (), Sleep (Finite 9 (- 2))]\<rparr>)"
proof -
  have a: "rate_limited (failing rate_limit_error) () 0 (nat 2)"
    by (rule rate_limited_failing [OF rate_limit_error_retryable])
  have d: "\<forall>i\<in>{1..nat 2}. cpython_sleep_check (backoff float_1 float_1_5 i) = None"
    by (rule short_delays_accepted) simp
  have s: "str_int 2 = ''2''" by code_simp
  from sleeps_after_last_attempt [OF a d, THEN conjunct1] show ?thesis
    by (simp add: max_retries_exceeded_def s eval_nat_numeral failing_def float_products)
qed

text \<open>
  Without the condition on the delays C9 does not hold: with \<open>initial_sleep_time = - 1.0\<close>
  and \<open>max_retries = 2\<close> no delay is performed at all, and the wrapper ends with the
  error of \<open>time.sleep\<close>.
\<close>

theorem sleeps_after_last_attempt_counterexample:
  "rate_limited (failing rate_limit_error) () 0 (nat 2)
   \<and> retry_with_exponential_backoff cpython_sleep_check (failing rate_limit_error) 2
        float_minus_1 float_1_5 () 0
       = (Inl (PyExc ''ValueError'' True ''sleep length must be non-negative''),
          \<lparr>world = 1, trace = [Call ()]\<rparr>)
   \<and> delays (trace (snd (retry_with_exponential_backoff cpython_sleep_check
          (failing rate_limit_error) 2 float_minus_1 float_1_5 () 0))) = []"
proof -
  have r: "retryable rate_limit_error" by (rule rate_limit_error_retryable)
  have 1: "rate_limited (failing rate_limit_error) () 0 (nat 2)"
    by (rule rate_limited_failing [OF r])
  have f: "failing rate_limit_error () 0 = (Inl rate_limit_error, 1)" by (simp add: failing_def)
  have s: "cpython_sleep_check (float_mul float_minus_1 float_1_5) =
             Some (PyExc ''ValueError'' True ''sleep length must be non-negative'')"
    by (simp add: float_products sleep_checks)
  have 2: "retry_with_exponential_backoff cpython_sleep_check (failing rate_limit_error) 2
        float_minus_1 float_1_5 () 0
       = (Inl (PyExc ''ValueError'' True ''sleep length must be non-negative''),
          \<lparr>world = 1, trace = [Call ()]\<rparr>)"
    unfolding retry_with_exponential_backoff_def
    by (rule first_failure_sleep_rejected
          [of "failing rate_limit_error" "()" 0 rate_limit_error 1 2 cpython_sleep_check
              float_minus_1 float_1_5, OF f r _ s]) simp
  have 3: "delays (trace (snd (retry_with_exponential_backoff cpython_sleep_check
          (failing rate_limit_error) 2 float_minus_1 float_1_5 () 0))) = []"
    unfolding 2 by simp
  from 1 2 3 show ?thesis by (intro conjI)
qed

text \<open>
  C10. Every invocation of the operation that the wrapper makes, the first attempt and
  every retry, is made with the arguments the caller supplied.
\<close>

theorem same_arguments_every_attempt:
  "\<forall>a \<in> set (calls (trace (snd (retry_with_exponential_backoff raises func max_retries
        initial_sleep_time backoff_factor args w)))). a = args"
proof -
  from retry_loop_extends [of raises func backoff_factor args "nat max_retries" initial_sleep_time
      "\<lparr>world = w, trace = []\<rparr>"]
  show ?thesis
    by (auto simp add: retry_with_exponential_backoff_def wrapper_trace simp del: retry_loop.simps)
qed

theorem same_arguments_every_attempt_witness:
  "''prompt'' \<in> set (calls (trace (snd (retry_with_exponential_backoff cpython_sleep_check
        (flaky 2 rate_limit_error) 5 float_1 float_1_5 ''prompt'' 0))))
   \<and> set (calls (trace (snd (retry_with_exponential_backoff cpython_sleep_check
        (flaky 2 rate_limit_error) 5 float_1 float_1_5 ''prompt'' 0)))) \<subseteq> {''prompt''}"
proof -
  have "take 2 (trace (snd (wrapper cpython_sleep_check (flaky 2 rate_limit_error) 5
          float_1 float_1_5 ''prompt'' 0))) = [Call ''prompt'', Sleep (float_mul float_1 float_1_5)]"
    by (rule first_failure_retried [of _ _ _ rate_limit_error 1])
       (simp_all add: flaky_def rate_limit_error_retryable float_products sleep_checks)
  then have "Call ''prompt'' \<in> set (trace (snd (wrapper cpython_sleep_check
          (flaky 2 rate_limit_error) 5 float_1 float_1_5 ''prompt'' 0)))"
    by (metis in_set_takeD list.set_intros(1))
  then have "''prompt'' \<in> set (calls (trace (snd (retry_with_exponential_backoff
        cpython_sleep_check (flaky 2 rate_limit_error) 5 float_1 float_1_5 ''prompt'' 0))))"
    unfolding retry_with_exponential_backoff_def by (rule Call_in_calls)
  with same_arguments_every_attempt
         [of cpython_sleep_check "flaky 2 rate_limit_error" 5 float_1 float_1_5 "''prompt''" 0]
  show ?thesis by blast
qed

section \<open>Properties of the formatter\<close>

lemma of_char_digit_char: "d < 10 \<Longrightarrow> (of_char (digit_char d) :: nat) = 48 + d"
  by (simp add: digit_char_def)

lemma is_digit_digit_char: "d < 10 \<Longrightarrow> is_digit (digit_char d)"
  by (simp add: is_digit_def of_char_digit_char)

lemma digit_char_inject: "d < 10 \<Longrightarrow> d' < 10 \<Longrightarrow> digit_char d = digit_char d' \<Longrightarrow> d = d'"
  by (metis of_char_digit_char add_left_cancel)

lemma digit_char_0: "digit_char 0 = CHR ''0''"
  by code_simp

lemma str_nat_1: "n < 10 \<Longrightarrow> str_nat n = [digit_char n]"
  by (simp add: str_nat.simps)

lemma str_nat_2: "10 \<le> n \<Longrightarrow> n < 100 \<Longrightarrow> str_nat n = [digit_char (n div 10), digit_char (n mod 10)]"
  by (subst str_nat.simps) (simp add: str_nat_1)

lemma str_nat_3:
  "100 \<le> n \<Longrightarrow> n < 1000 \<Longrightarrow>
   str_nat n = [digit_char (n div 100), digit_char (n div 10 mod 10), digit_char (n mod 10)]"
  by (subst str_nat.simps) (simp add: str_nat_2 div_mult2_eq [symmetric])

lemma str_nat_4:
  "1000 \<le> n \<Longrightarrow> n < 10000 \<Longrightarrow>
   str_nat n = [digit_char (n div 1000), digit_char (n div 100 mod 10),
                digit_char (n div 10 mod 10), digit_char (n mod 10)]"
  by (subst str_nat.simps) (simp add: str_nat_3 div_mult2_eq [symmetric])

lemma zero_pad_2:
  assumes "n < 100"
  shows "zero_pad 2 n = [digit_char (n div 10), digit_char (n mod 10)]"
proof (cases "n < 10")
  case True
  then show ?thesis by (simp add: zero_pad_def str_nat_1 digit_char_0 [symmetric] numeral_2_eq_2 numeral_3_eq_3)
next
  case False
  with assms show ?thesis by (simp add: zero_pad_def str_nat_2)
qed

lemma zero_pad_4:
  assumes "n < 10000"
  shows "zero_pad 4 n = [digit_char (n div 1000), digit_char (n div 100 mod 10),
                         digit_char (n div 10 mod 10), digit_char (n mod 10)]"
proof -
  consider "n < 10" | "10 \<le> n" "n < 100" | "100 \<le> n" "n < 1000" | "1000 \<le> n" by linarith
  then show ?thesis
  proof cases
    case 1
    then show ?thesis by (simp add: zero_pad_def str_nat_1 digit_char_0 [symmetric] numeral_2_eq_2 numeral_3_eq_3)
  next
    case 2
    then show ?thesis by (simp add: zero_pad_def str_nat_2 digit_char_0 [symmetric] numeral_2_eq_2 numeral_3_eq_3)
  next
    case 3
    then show ?thesis by (simp add: zero_pad_def str_nat_3 digit_char_0 [symmetric] numeral_2_eq_2 numeral_3_eq_3)
  next
    case 4
    with assms show ?thesis by (simp add: zero_pad_def str_nat_4)
  qed
qed

lemma timestamp_str_eq:
  "timestamp_str now =
     zero_pad 4 (year now) @ CHR ''-'' # zero_pad 2 (month now) @ CHR ''-'' # zero_pad 2 (day now)
       @ CHR ''_'' # zero_pad 2 (hour now) @ zero_pad 2 (minute now) @ zero_pad 2 (second now)"
  by (simp add: timestamp_str_def TIMESTAMP_FORMAT_def directive_def)

lemma days_in_month_le: "days_in_month y m \<le> 31"
  by (simp add: days_in_month_def)

lemma valid_datetime_bounds:
  assumes "valid_datetime dt"
  shows "year dt < 10000" "month dt < 100" "day dt < 100" "hour dt < 100" "minute dt < 100"
    "second dt < 100"
proof -
  from assms have "day dt \<le> days_in_month (year dt) (month dt)" by (simp add: valid_datetime_def)
  with days_in_month_le [of "year dt" "month dt"] show "day dt < 100" by linarith
qed (use assms in \<open>simp_all add: valid_datetime_def\<close>)

lemma decode_2: "n < 100 \<Longrightarrow>
   int_of_digits 0 [digit_char (n div 10), digit_char (n mod 10)] = n"
  by (simp add: of_char_digit_char)

lemma decode_4:
  assumes "n < 10000"
  shows "int_of_digits 0 [digit_char (n div 1000), digit_char (n div 100 mod 10),
                    digit_char (n div 10 mod 10), digit_char (n mod 10)] = n"
proof -
  define a where "a = n div 10"
  define b where "b = a div 10"
  define c where "c = b div 10"
  have b: "n div 100 = b" and c: "n div 1000 = c"
    by (simp_all add: a_def b_def c_def div_mult2_eq [symmetric])
  have "c < 10" using assms unfolding c [symmetric] by simp
  then have "int_of_digits 0 [digit_char c, digit_char (b mod 10), digit_char (a mod 10),
               digit_char (n mod 10)] = 10 * (10 * (10 * c + b mod 10) + a mod 10) + n mod 10"
    by (simp add: of_char_digit_char)
  also have "10 * c + b mod 10 = b" by (simp add: c_def)
  also have "10 * b + a mod 10 = a" by (simp add: b_def)
  also have "10 * a + n mod 10 = n" by (simp add: a_def)
  finally show ?thesis by (simp add: b c a_def)
qed

lemma timestamp_str_digits:
  assumes "valid_datetime now"
  shows "timestamp_str now =
     [digit_char (year now div 1000), digit_char (year now div 100 mod 10),
      digit_char (year now div 10 mod 10), digit_char (year now mod 10), CHR ''-'',
      digit_char (month now div 10), digit_char (month now mod 10), CHR ''-'',
      digit_char (day now div 10), digit_char (day now mod 10), CHR ''_'',
      digit_char (hour now div 10), digit_char (hour now mod 10),
      digit_char (minute now div 10), digit_char (minute now mod 10),
      digit_char (second now div 10), digit_char (second now mod 10)]"
  using valid_datetime_bounds [OF assms]
  by (simp add: timestamp_str_eq zero_pad_2 zero_pad_4)

lemma release_instant_valid: "valid_datetime release_instant"
  by (simp add: valid_datetime_def release_instant_def days_in_month_def)

lemma digit_char_values:
  "digit_char 0 = CHR ''0''" "digit_char 1 = CHR ''1''" "digit_char 2 = CHR ''2''"
  "digit_char 3 = CHR ''3''" "digit_char 4 = CHR ''4''" "digit_char 5 = CHR ''5''"
  "digit_char 6 = CHR ''6''" "digit_char 7 = CHR ''7''" "digit_char 8 = CHR ''8''"
  "digit_char 9 = CHR ''9''"
  by code_simp+

lemma digit_char_Suc_0: "digit_char (Suc 0) = CHR ''1''"
  using digit_char_values(2) by simp

lemma release_instant_str: "timestamp_str release_instant = ''2024-03-07_142305''"
  unfolding timestamp_str_digits [OF release_instant_valid]
  by (simp add: release_instant_def digit_char_values digit_char_Suc_0)

lemma str_le_refl: "str_le s s"
  by (induction s) simp_all

lemma str_le_digit_pair:
  assumes "a < a' \<or> (a = a' \<and> (b < b' \<or> (b = b' \<and> str_le u v)))"
    and "a < 10" "a' < 10" "b < 10" "b' < 10"
  shows "str_le (digit_char a # digit_char b # u) (digit_char a' # digit_char b' # v)"
  using assms by (auto simp add: of_char_digit_char)

lemma div_mod_lex:
  fixes m n k :: nat
  assumes "m < n"
  shows "m div k < n div k \<or> (m div k = n div k \<and> m mod k < n mod k)"
proof (cases "m div k = n div k")
  case True
  have "m mod k < n mod k"
    using assms True by (metis add_less_cancel_left mult_div_mod_eq)
  with True show ?thesis by simp
next
  case False
  moreover have "m div k \<le> n div k"
    using assms by (simp add: div_le_mono)
  ultimately show ?thesis by simp
qed

lemma str_le_two_digits:
  assumes "m < n \<or> (m = n \<and> str_le u v)" and "m < 100" and "n < 100"
  shows "str_le (zero_pad 2 m @ u) (zero_pad 2 n @ v)"
proof -
  from assms(2,3) have d: "m div 10 < 10" "n div 10 < 10" "m mod 10 < 10" "n mod 10 < 10"
    by simp_all
  have "m div 10 < n div 10 \<or> (m div 10 = n div 10 \<and>
          (m mod 10 < n mod 10 \<or> (m mod 10 = n mod 10 \<and> str_le u v)))"
  proof (cases "m < n")
    case True
    from div_mod_lex [OF this, of 10] show ?thesis by blast
  next
    case False
    with assms(1) have "m = n" "str_le u v" by simp_all
    then show ?thesis by simp
  qed
  from str_le_digit_pair [OF this d(1,2,3,4)] show ?thesis
    by (simp only: zero_pad_2 [OF assms(2)] zero_pad_2 [OF assms(3)] append_Cons append_Nil)
qed

lemma zero_pad_4_split:
  assumes "n < 10000"
  shows "zero_pad 4 n = zero_pad 2 (n div 100) @ zero_pad 2 (n mod 100)"
proof -
  from assms have "n div 100 < 100" "n mod 100 < 100" by simp_all
  moreover have "n div 100 div 10 = n div 1000" by (simp add: div_mult2_eq [symmetric])
  moreover have "n mod 100 = 10 * (n div 10 mod 10) + n mod 10"
    using mod_mult2_eq [of n 10 10] by simp
  then have "n mod 100 div 10 = n div 10 mod 10" "n mod 100 mod 10 = n mod 10"
    by simp_all
  ultimately show ?thesis
    by (simp add: zero_pad_2 zero_pad_4 assms)
qed

lemma str_le_four_digits:
  assumes "m < n \<or> (m = n \<and> str_le u v)" and "m < 10000" and "n < 10000"
  shows "str_le (zero_pad 4 m @ u) (zero_pad 4 n @ v)"
proof -
  from assms(2,3) have b: "m div 100 < 100" "n div 100 < 100" "m mod 100 < 100" "n mod 100 < 100"
    by simp_all
  have "m div 100 < n div 100 \<or>
      (m div 100 = n div 100 \<and> str_le (zero_pad 2 (m mod 100) @ u) (zero_pad 2 (n mod 100) @ v))"
  proof (cases "m < n")
    case True
    from div_mod_lex [OF this, of 100] show ?thesis
    proof
      assume "m div 100 < n div 100"
      then show ?thesis ..
    next
      assume "m div 100 = n div 100 \<and> m mod 100 < n mod 100"
      then have "m div 100 = n div 100"
        and "m mod 100 < n mod 100 \<or> (m mod 100 = n mod 100 \<and> str_le u v)" by simp_all
      with str_le_two_digits [OF _ b(3,4)] show ?thesis by blast
    qed
  next
    case False
    with assms(1) have "m = n" "str_le u v" by simp_all
    then have "m mod 100 < n mod 100 \<or> (m mod 100 = n mod 100 \<and> str_le u v)" by simp
    from str_le_two_digits [OF this b(3,4)] \<open>m = n\<close> show ?thesis by simp
  qed
  from str_le_two_digits [OF this b(1,2)] show ?thesis
    by (simp add: zero_pad_4_split assms(2,3))
qed

lemma later_instant_valid: "valid_datetime later_instant"
  by (simp add: valid_datetime_def later_instant_def days_in_month_def)

lemma later_instant_str: "timestamp_str later_instant = ''2024-03-07_142306''"
  unfolding timestamp_str_digits [OF later_instant_valid]
  by (simp add: later_instant_def digit_char_values digit_char_Suc_0)

lemma release_before_later: "datetime_le release_instant later_instant"
  by (simp add: datetime_le_def release_instant_def later_instant_def)

section \<open>The claims about the timestamp formatter\<close>

text \<open>
  C6. For every instant \<open>now\<close> (a valid UTC \<^verbatim>\<open>datetime\<close>), the string that
  \<open>timestamp_str\<close> returns matches \<open>YYYY-MM-DD_HHMMSS\<close>: four digits, a hyphen, two
  digits, a hyphen, two digits, an underscore, six digits. The digit groups read back
  as the year, month, day, hour, minute and second of \<open>now\<close>.
\<close>

theorem timestamp_matches_pattern:
  assumes "valid_datetime now"
  shows "matches_timestamp_pattern (timestamp_str now)
       \<and> int_of_digits 0 (take 4 (timestamp_str now)) = year now
       \<and> int_of_digits 0 (take 2 (drop 5 (timestamp_str now))) = month now
       \<and> int_of_digits 0 (take 2 (drop 8 (timestamp_str now))) = day now
       \<and> int_of_digits 0 (take 2 (drop 11 (timestamp_str now))) = hour now
       \<and> int_of_digits 0 (take 2 (drop 13 (timestamp_str now))) = minute now
       \<and> int_of_digits 0 (drop 15 (timestamp_str now)) = second now"
proof -
  note b = valid_datetime_bounds [OF assms]
  have "matches_timestamp_pattern (timestamp_str now)"
    unfolding timestamp_str_digits [OF assms] matches_timestamp_pattern_def
    using b by (simp add: is_digit_digit_char)
  moreover have "int_of_digits 0 (take 4 (timestamp_str now)) = year now"
    unfolding timestamp_str_digits [OF assms] using decode_4 [OF b(1)] by simp
  moreover have "int_of_digits 0 (take 2 (drop 5 (timestamp_str now))) = month now"
    unfolding timestamp_str_digits [OF assms] using decode_2 [OF b(2)] by simp
  moreover have "int_of_digits 0 (take 2 (drop 8 (timestamp_str now))) = day now"
    unfolding timestamp_str_digits [OF assms] using decode_2 [OF b(3)] by simp
  moreover have "int_of_digits 0 (take 2 (drop 11 (timestamp_str now))) = hour now"
    unfolding timestamp_str_digits [OF assms] using decode_2 [OF b(4)] by simp
  moreover have "int_of_digits 0 (take 2 (drop 13 (timestamp_str now))) = minute now"
    unfolding timestamp_str_digits [OF assms] using decode_2 [OF b(5)] by simp
  moreover have "int_of_digits 0 (drop 15 (timestamp_str now)) = second now"
    unfolding timestamp_str_digits [OF assms] using decode_2 [OF b(6)] by simp
  ultimately show ?thesis by (intro conjI)
qed

theorem timestamp_matches_pattern_witness:
  "timestamp_str release_instant = ''2024-03-07_142305''
   \<and> matches_timestamp_pattern ''2024-03-07_142305''
   \<and> int_of_digits 0 ''2024'' = year release_instant"
proof -
  note t = timestamp_matches_pattern [OF release_instant_valid]
  from t have "matches_timestamp_pattern (timestamp_str release_instant)"
    by (rule conjunct1)
  then have 1: "matches_timestamp_pattern ''2024-03-07_142305''"
    by (simp only: release_instant_str)
  from t have "int_of_digits 0 (take 4 (timestamp_str release_instant)) = year release_instant"
    by (elim conjE)
  moreover have "take 4 ''2024-03-07_142305'' = ''2024''" by simp
  ultimately have 2: "int_of_digits 0 ''2024'' = year release_instant"
    by (simp only: release_instant_str)
  from release_instant_str 1 2 show ?thesis by (intro conjI)
qed

text \<open>
  C7. For instants \<open>t1\<close> not later than \<open>t2\<close>, the string formatted for \<open>t1\<close> is
  lexicographically less than or equal to the string formatted for \<open>t2\<close>.
\<close>

theorem timestamp_monotone:
  assumes "valid_datetime t1" and "valid_datetime t2" and "datetime_le t1 t2"
  shows "str_le (timestamp_str t1) (timestamp_str t2)"
proof -
  note b1 = valid_datetime_bounds [OF assms(1)]
  note b2 = valid_datetime_bounds [OF assms(2)]
  let ?S = "\<lambda>t. zero_pad 2 (second t) @ []"
  let ?M = "\<lambda>t. zero_pad 2 (minute t) @ ?S t"
  let ?H = "\<lambda>t. zero_pad 2 (hour t) @ ?M t"
  let ?D = "\<lambda>t. zero_pad 2 (day t) @ CHR ''_'' # ?H t"
  let ?Mo = "\<lambda>t. zero_pad 2 (month t) @ CHR ''-'' # ?D t"
  let ?Y = "\<lambda>t. zero_pad 4 (year t) @ CHR ''-'' # ?Mo t"
  define c6 where "c6 \<longleftrightarrow> second t1 < second t2 \<or> (second t1 = second t2 \<and> microsecond t1 \<le> microsecond t2)"
  define c5 where "c5 \<longleftrightarrow> minute t1 < minute t2 \<or> (minute t1 = minute t2 \<and> c6)"
  define c4 where "c4 \<longleftrightarrow> hour t1 < hour t2 \<or> (hour t1 = hour t2 \<and> c5)"
  define c3 where "c3 \<longleftrightarrow> day t1 < day t2 \<or> (day t1 = day t2 \<and> c4)"
  define c2 where "c2 \<longleftrightarrow> month t1 < month t2 \<or> (month t1 = month t2 \<and> c3)"
  have c1: "year t1 < year t2 \<or> (year t1 = year t2 \<and> c2)"
    using assms(3) unfolding datetime_le_def c2_def c3_def c4_def c5_def c6_def
    by (simp add: le_less)
  have s6: "str_le (?S t1) (?S t2)" if c6
    by (rule str_le_two_digits [OF _ b1(6) b2(6)]) (use that in \<open>auto simp: c6_def\<close>)
  have s5: "str_le (?M t1) (?M t2)" if c5
    by (rule str_le_two_digits [OF _ b1(5) b2(5)]) (use that s6 in \<open>auto simp: c5_def\<close>)
  have s4: "str_le (?H t1) (?H t2)" if c4
    by (rule str_le_two_digits [OF _ b1(4) b2(4)]) (use that s5 in \<open>auto simp: c4_def\<close>)
  have s3: "str_le (?D t1) (?D t2)" if c3
    by (rule str_le_two_digits [OF _ b1(3) b2(3)]) (use that s4 in \<open>auto simp: c3_def\<close>)
  have s2: "str_le (?Mo t1) (?Mo t2)" if c2
    by (rule str_le_two_digits [OF _ b1(2) b2(2)]) (use that s3 in \<open>auto simp: c2_def\<close>)
  have "str_le (?Y t1) (?Y t2)"
    by (rule str_le_four_digits [OF _ b1(1) b2(1)]) (use c1 s2 in auto)
  then show ?thesis by (simp add: timestamp_str_eq)
qed

theorem timestamp_monotone_witness:
  "datetime_le release_instant later_instant
   \<and> str_le ''2024-03-07_142305'' ''2024-03-07_142306''"
proof -
  from timestamp_monotone [OF release_instant_valid later_instant_valid release_before_later]
  have "str_le ''2024-03-07_142305'' ''2024-03-07_142306''"
    by (simp only: release_instant_str later_instant_str)
  with release_before_later show ?thesis by (intro conjI)
qed

end
